theory Spec2Isabelle
  imports Main
begin

section \<open>Values and exceptions\<close>

text \<open>
  The payloads exchanged with the browser are JSON values (Python's \<open>Any\<close> after
  \<open>request.json\<close>); \<open>None\<close> is \<open>JNull\<close>. JSON numbers are the integers.
  A dict is an association list with one binding for each key, read with \<open>map_of\<close>.
\<close>

datatype json =
    JNull
  | JBool bool
  | JInt int
  | JStr string
  | JArr "json list"
  | JObj "(string \<times> json) list"

text \<open>The exceptions the messaging layer can raise; \<open>Empty\<close> is \<open>queue.Empty\<close>.\<close>

datatype error = KeyError | TypeError | Empty

text \<open>\<open>d[key]\<close> for a string key on a JSON value: only a dict can be subscripted so.\<close>

fun subscript :: "json \<Rightarrow> string \<Rightarrow> error + json" where
  "subscript (JObj kvs) k = (case map_of kvs k of None \<Rightarrow> Inl KeyError | Some v \<Rightarrow> Inr v)"
| "subscript _ k = Inl TypeError"

text \<open>
  The key under which a JSON value is looked up in a dict keyed by integers:
  lists and dicts are unhashable (\<open>TypeError\<close>), \<open>True\<close> and \<open>False\<close> hash and compare
  as 1 and 0, and a string or \<open>None\<close> equals no integer key.
\<close>

fun int_key :: "json \<Rightarrow> error + int option" where
  "int_key (JInt n) = Inr (Some n)"
| "int_key (JBool b) = Inr (Some (if b then 1 else 0))"
| "int_key JNull = Inr None"
| "int_key (JStr s) = Inr None"
| "int_key (JArr xs) = Inl TypeError"
| "int_key (JObj kvs) = Inl TypeError"

text \<open>The same for a dict keyed by strings (\<open>_callbacks\<close>).\<close>

fun str_key :: "json \<Rightarrow> error + string option" where
  "str_key (JStr s) = Inr (Some s)"
| "str_key (JArr xs) = Inl TypeError"
| "str_key (JObj kvs) = Inl TypeError"
| "str_key _ = Inr None"

section \<open>Command, EventLoopMessage, EventLoopResponse\<close>

record Command =
  topic :: string
  payload :: json

definition Command_javascript :: "string \<Rightarrow> Command" where
  "Command_javascript js = \<lparr>topic = ''javascript'', payload = JStr js\<rparr>"

definition Command_update_interval :: "int \<Rightarrow> Command" where
  "Command_update_interval interval = \<lparr>topic = ''update_interval'', payload = JInt interval\<rparr>"

record EventLoopMessage =
  msg_topic :: json
  msg_payload :: json
  msg_id :: json

text \<open>\<open>EventLoopMessage.__init__\<close>: three subscripts, each of which may raise.\<close>

definition EventLoopMessage_init :: "json \<Rightarrow> error + EventLoopMessage" where
  "EventLoopMessage_init input_json =
     (case subscript input_json ''topic'' of Inl e \<Rightarrow> Inl e | Inr t \<Rightarrow>
      case subscript input_json ''payload'' of Inl e \<Rightarrow> Inl e | Inr p \<Rightarrow>
      case subscript input_json ''id'' of Inl e \<Rightarrow> Inl e | Inr i \<Rightarrow>
        Inr \<lparr>msg_topic = t, msg_payload = p, msg_id = i\<rparr>)"

text \<open>
  An \<open>EventLoopResponse\<close> object. Its \<open>id\<close> is \<open>id(self)\<close>, the address at which
  the object is allocated, so the constructor takes that address. \<open>event\<close> is the flag
  of the \<open>threading.Event\<close>; \<open>result\<close> starts as \<open>None\<close>.
\<close>

record EventLoopResponse = Command +
  should_respond :: bool
  id_num :: int
  event :: bool
  result :: json

definition EventLoopResponse_init :: "int \<Rightarrow> Command \<Rightarrow> bool \<Rightarrow> EventLoopResponse" where
  "EventLoopResponse_init addr command sr =
     \<lparr>topic = topic command, payload = payload command,
      should_respond = sr, id_num = addr, event = False, result = JNull\<rparr>"

definition to_json :: "EventLoopResponse \<Rightarrow> json" where
  "to_json r =
     JObj [(''topic'', JStr (topic r)), (''id'', JInt (id_num r)),
           (''should_respond'', JBool (should_respond r)), (''payload'', payload r)]"

definition nothing :: "int \<Rightarrow> EventLoopResponse" where
  "nothing addr = EventLoopResponse_init addr \<lparr>topic = ''nothing'', payload = JNull\<rparr> False"

section \<open>Postman\<close>

text \<open>
  The unbounded \<open>queue.Queue\<close> is the list of its packets, oldest first. The objects
  that outlive one call (those registered in \<open>in_waiting\<close>) live in a store from
  addresses to objects; \<open>in_waiting\<close> maps an id to a reference into that store.
\<close>

type_synonym heap = "int \<rightharpoonup> EventLoopResponse"

record Postman =
  outgoing_packet_queue :: "json list"
  in_waiting :: "int \<rightharpoonup> int"

definition Queue_put :: "json list \<Rightarrow> json \<Rightarrow> json list" where
  "Queue_put q x = q @ [x]"

definition Queue_get_nowait :: "json list \<Rightarrow> error + (json \<times> json list)" where
  "Queue_get_nowait q = (case q of [] \<Rightarrow> Inl Empty | x # rest \<Rightarrow> Inr (x, rest))"

definition Postman_init :: Postman where
  "Postman_init = \<lparr>outgoing_packet_queue = [], in_waiting = Map.empty\<rparr>"

definition invalidate_outgoing_packets :: "Postman \<Rightarrow> Postman" where
  "invalidate_outgoing_packets p = p\<lparr>outgoing_packet_queue := []\<rparr>"

text \<open>
  \<open>send_and_receive\<close>, line by line. The caller's local \<open>response\<close> is the object at
  \<open>addr\<close>. Line 187 allocates it, line 188 enqueues its packet, line 189 registers it,
  and lines 190 and 191 return the result once the event is set: \<open>None\<close> stands for a
  caller that is still blocked in \<open>wait\<close>. The branch for an address without object
  is never taken after line 187; it only makes the functions total.
\<close>

definition send_and_receive_L187 :: "int \<Rightarrow> Command \<Rightarrow> heap \<Rightarrow> heap" where
  "send_and_receive_L187 addr command h = h(addr \<mapsto> EventLoopResponse_init addr command True)"

definition send_and_receive_L188 :: "int \<Rightarrow> Postman \<times> heap \<Rightarrow> Postman \<times> heap" where
  "send_and_receive_L188 addr s =
     (case s of (p, h) \<Rightarrow>
        (case h addr of
           None \<Rightarrow> (p, h)
         | Some response \<Rightarrow>
             (p\<lparr>outgoing_packet_queue := Queue_put (outgoing_packet_queue p) (to_json response)\<rparr>, h)))"

definition send_and_receive_L189 :: "int \<Rightarrow> Postman \<times> heap \<Rightarrow> Postman \<times> heap" where
  "send_and_receive_L189 addr s =
     (case s of (p, h) \<Rightarrow>
        (case h addr of
           None \<Rightarrow> (p, h)
         | Some response \<Rightarrow> (p\<lparr>in_waiting := (in_waiting p)(id_num response \<mapsto> addr)\<rparr>, h)))"

definition send_and_receive_enter :: "int \<Rightarrow> Command \<Rightarrow> Postman \<times> heap \<Rightarrow> Postman \<times> heap" where
  "send_and_receive_enter addr command s =
     (case s of (p, h) \<Rightarrow>
        send_and_receive_L189 addr
          (send_and_receive_L188 addr (p, send_and_receive_L187 addr command h)))"

definition send_and_receive_resume :: "int \<Rightarrow> heap \<Rightarrow> json option" where
  "send_and_receive_resume addr h =
     (case h addr of
        None \<Rightarrow> None
      | Some response \<Rightarrow> if event response then Some (result response) else None)"

definition send :: "int \<Rightarrow> Command \<Rightarrow> Postman \<Rightarrow> Postman" where
  "send addr command p =
     (let response = EventLoopResponse_init addr command False
      in p\<lparr>outgoing_packet_queue := Queue_put (outgoing_packet_queue p) (to_json response)\<rparr>)"

text \<open>
  \<open>process_message\<close> mutates the object that \<open>in_waiting\<close> refers to; the dict itself
  is not changed. A missing key raises \<open>KeyError\<close>. A reference always points to an
  object; the branch for a dangling one leaves the store as it is.
\<close>

definition process_message :: "EventLoopMessage \<Rightarrow> Postman \<Rightarrow> heap \<Rightarrow> error + heap" where
  "process_message message p h =
     (case int_key (msg_id message) of
        Inl e \<Rightarrow> Inl e
      | Inr None \<Rightarrow> Inl KeyError
      | Inr (Some k) \<Rightarrow>
          (case in_waiting p k of
             None \<Rightarrow> Inl KeyError
           | Some ref \<Rightarrow>
               Inr (case h ref of
                      None \<Rightarrow> h
                    | Some match \<Rightarrow> h(ref \<mapsto> match\<lparr>event := True, result := msg_payload message\<rparr>))))"

definition get_new_packet :: "int \<Rightarrow> Postman \<Rightarrow> json \<times> Postman" where
  "get_new_packet addr p =
     (case Queue_get_nowait (outgoing_packet_queue p) of
        Inr (x, rest) \<Rightarrow> (x, p\<lparr>outgoing_packet_queue := rest\<rparr>)
      | Inl e \<Rightarrow> (to_json (nothing addr), p))"

text \<open>
  \<open>send_buffer_packets\<close>: the loop over \<open>range(num_packets)\<close>, empty for a number
  below one. Iteration \<open>i\<close> allocates its no-op at \<open>ident i\<close>.
\<close>

definition send_buffer_packets :: "(nat \<Rightarrow> int) \<Rightarrow> int \<Rightarrow> Postman \<Rightarrow> Postman" where
  "send_buffer_packets ident num_packets p =
     fold (\<lambda>i p. p\<lparr>outgoing_packet_queue :=
                      Queue_put (outgoing_packet_queue p) (to_json (nothing (ident i)))\<rparr>)
          [0..<nat num_packets] p"

section \<open>Page\<close>

text \<open>
  The callables of a page (\<open>on_load\<close>, the click callbacks) belong to the application.
  They are values of an arbitrary type \<open>'f\<close>, and calling one is recorded in the list
  \<open>invoked\<close>; what the callable then does is the application's own.
\<close>

datatype 'f invocation = is_OnLoad: OnLoad 'f | Callback string 'f

record 'f Page =
  template :: string
  template_kwargs :: "(string \<times> string) list"
  on_load :: 'f
  priv_update_interval :: int
  priv_has_loaded_event :: bool
  priv_postman :: Postman
  priv_callbacks :: "string \<rightharpoonup> 'f"

definition Page_init :: "string \<Rightarrow> (string \<times> string) list \<Rightarrow> 'f \<Rightarrow> 'f Page" where
  "Page_init tmpl kwargs noop =
     \<lparr>template = tmpl, template_kwargs = kwargs, on_load = noop,
      priv_update_interval = 100, priv_has_loaded_event = False,
      priv_postman = Postman_init, priv_callbacks = Map.empty\<rparr>"

text \<open>A page together with the store of response objects and the record of calls.\<close>

record 'f system =
  page :: "'f Page"
  objects :: heap
  invoked :: "'f invocation list"

text \<open>Flask's \<open>request\<close>: \<open>request.method\<close> and the parsed body \<open>request.json\<close>.\<close>

record request =
  req_method :: string
  json_body :: json

datatype reply = Packet json | Markup string

definition on_button_click :: "string \<Rightarrow> 'f \<Rightarrow> 'f Page \<Rightarrow> 'f Page" where
  "on_button_click tag_id callback pg = pg\<lparr>priv_callbacks := (priv_callbacks pg)(tag_id \<mapsto> callback)\<rparr>"

text \<open>The setter of the property \<open>update_interval\<close>.\<close>

definition update_interval_setter :: "int \<Rightarrow> int \<Rightarrow> 'f Page \<Rightarrow> 'f Page" where
  "update_interval_setter addr interval pg =
     pg\<lparr>priv_update_interval := interval,
        priv_postman := send addr (Command_update_interval interval) (priv_postman pg)\<rparr>"

text \<open>
  Lines 316 to 328 of \<open>on_request\<close>: the message is built and dispatched on its topic.
  An exception leaves the handler with the state reached so far.
\<close>

definition on_request_L316 :: "int \<Rightarrow> json \<Rightarrow> 'f system \<Rightarrow> (error + reply) \<times> 'f system" where
  "on_request_L316 addr input_json s =
     (case EventLoopMessage_init input_json of
        Inl e \<Rightarrow> (Inl e, s)
      | Inr message \<Rightarrow>
          if msg_topic message = JStr ''command_loop'' then
            (case get_new_packet addr (priv_postman (page s)) of
               (pkt, pm) \<Rightarrow> (Inr (Packet pkt), s\<lparr>page := (page s)\<lparr>priv_postman := pm\<rparr>\<rparr>))
          else if msg_topic message = JStr ''onclick'' then
            (case subscript (msg_payload message) ''id'' of
               Inl e \<Rightarrow> (Inl e, s)
             | Inr x \<Rightarrow>
                 (case str_key x of
                    Inl e \<Rightarrow> (Inl e, s)
                  | Inr None \<Rightarrow> (Inr (Packet (to_json (nothing addr))), s)
                  | Inr (Some tag_id) \<Rightarrow>
                      (case priv_callbacks (page s) tag_id of
                         None \<Rightarrow> (Inr (Packet (to_json (nothing addr))), s)
                       | Some callback \<Rightarrow>
                           (Inr (Packet (to_json (nothing addr))),
                            s\<lparr>invoked := invoked s @ [Callback tag_id callback]\<rparr>))))
          else
            (case process_message message (priv_postman (page s)) (objects s) of
               Inl e \<Rightarrow> (Inl e, s)
             | Inr h \<Rightarrow> (Inr (Packet (to_json (nothing addr))), s\<lparr>objects := h\<rparr>)))"

text \<open>
  \<open>on_request\<close>, one request handled from start to end. \<open>render_template\<close> is the
  templating collaborator; the \<open>k\<close>-th response object the handler allocates lies at
  \<open>ident k\<close>.
\<close>

definition on_request ::
  "(string \<Rightarrow> (string \<times> string) list \<Rightarrow> string) \<Rightarrow> (nat \<Rightarrow> int) \<Rightarrow> request \<Rightarrow> 'f system
     \<Rightarrow> (error + reply) \<times> 'f system" where
  "on_request render_template ident req s =
     (if req_method req = ''POST'' then
        (let s1 = (if \<not> priv_has_loaded_event (page s)
                   then s\<lparr>page := (page s)\<lparr>priv_has_loaded_event := True\<rparr>,
                          invoked := invoked s @ [OnLoad (on_load (page s))]\<rparr>
                   else s)
         in on_request_L316 (ident 0) (json_body req) s1)
      else
        (let pg1 = (page s)\<lparr>priv_has_loaded_event := False\<rparr>;
             pg2 = pg1\<lparr>priv_postman := invalidate_outgoing_packets (priv_postman pg1)\<rparr>;
             pg3 = pg2\<lparr>priv_postman := send_buffer_packets ident 2 (priv_postman pg2)\<rparr>;
             pg4 = update_interval_setter (ident 2) (priv_update_interval pg3) pg3
         in (Inr (Markup (render_template (template pg4) (template_kwargs pg4))),
             s\<lparr>page := pg4\<rparr>)))"

text \<open>Requests served one after the other, each to its end.\<close>

definition serve ::
  "(string \<Rightarrow> (string \<times> string) list \<Rightarrow> string) \<Rightarrow> ((nat \<Rightarrow> int) \<times> request) list \<Rightarrow> 'f system
     \<Rightarrow> 'f system" where
  "serve render_template reqs s =
     fold (\<lambda>(ident, req) s. snd (on_request render_template ident req s)) reqs s"

subsection \<open>POST handlers running on several worker threads\<close>

text \<open>
  The server handles requests on worker threads, and nothing in \<open>on_request\<close> is locked.
  A POST handler is at one of these places: before the test of line 312, before the
  \<open>set\<close> of line 313, before the call of line 314, before line 316, or it has returned.
\<close>

datatype pc = L312 | L313 | L314 | L316 | Returned "error + reply"

record thread =
  at :: pc
  alloc :: int
  body :: json

definition step :: "thread \<Rightarrow> 'f system \<Rightarrow> thread \<times> 'f system" where
  "step t s =
     (case at t of
        L312 \<Rightarrow> (t\<lparr>at := (if \<not> priv_has_loaded_event (page s) then L313 else L316)\<rparr>, s)
      | L313 \<Rightarrow> (t\<lparr>at := L314\<rparr>, s\<lparr>page := (page s)\<lparr>priv_has_loaded_event := True\<rparr>\<rparr>)
      | L314 \<Rightarrow> (t\<lparr>at := L316\<rparr>, s\<lparr>invoked := invoked s @ [OnLoad (on_load (page s))]\<rparr>)
      | L316 \<Rightarrow> (case on_request_L316 (alloc t) (body t) s of (r, s') \<Rightarrow> (t\<lparr>at := Returned r\<rparr>, s'))
      | Returned r \<Rightarrow> (t, s))"

text \<open>A schedule names, step by step, the thread that runs next.\<close>

fun run_threads :: "nat list \<Rightarrow> thread list \<times> 'f system \<Rightarrow> thread list \<times> 'f system" where
  "run_threads [] c = c"
| "run_threads (i # sched) (ts, s) =
     (if i < length ts
      then (case step (ts ! i) s of (t', s') \<Rightarrow> run_threads sched (ts[i := t'], s'))
      else run_threads sched (ts, s))"

subsection \<open>What other threads do to a Postman\<close>

text \<open>
  While one caller of \<open>send_and_receive\<close> is blocked, other threads send commands, enter
  \<open>send_and_receive\<close> themselves, poll, post replies or reload the page. A reply that
  raises ends its own request and changes nothing.
\<close>

datatype action =
    Send int Command
  | Enter int Command
  | Poll int
  | Reply EventLoopMessage
  | Invalidate

fun act :: "action \<Rightarrow> Postman \<times> heap \<Rightarrow> Postman \<times> heap" where
  "act (Send addr command) (p, h) = (send addr command p, h)"
| "act (Enter addr command) (p, h) = send_and_receive_enter addr command (p, h)"
| "act (Poll addr) (p, h) = (snd (get_new_packet addr p), h)"
| "act (Reply message) (p, h) =
     (case process_message message p h of Inl e \<Rightarrow> (p, h) | Inr h' \<Rightarrow> (p, h'))"
| "act Invalidate (p, h) = (invalidate_outgoing_packets p, h)"

text \<open>The packet an action puts on the outbound queue, if it puts one.\<close>

fun enqueued :: "action \<Rightarrow> json list" where
  "enqueued (Send addr command) = [to_json (EventLoopResponse_init addr command False)]"
| "enqueued (Enter addr command) = [to_json (EventLoopResponse_init addr command True)]"
| "enqueued _ = []"

text \<open>
  The packets the polls of a run take from the queue, in the order of the polls. A poll
  that finds the queue empty takes nothing from it (it answers with the no-op).
\<close>

fun delivered :: "action list \<Rightarrow> Postman \<times> heap \<Rightarrow> json list" where
  "delivered [] s = []"
| "delivered (Poll addr # xs) s =
     (if outgoing_packet_queue (fst s) = [] then [] else [fst (get_new_packet addr (fst s))])
     @ delivered xs (act (Poll addr) s)"
| "delivered (x # xs) s = delivered xs (act x s)"

text \<open>Whether an action resolves or re-creates the exchange at address \<open>a\<close>.\<close>

fun touches :: "int \<Rightarrow> action \<Rightarrow> bool" where
  "touches a (Reply message) = (int_key (msg_id message) = Inr (Some a))"
| "touches a (Enter addr command) = (addr = a)"
| "touches a _ = False"

text \<open>
  A caller suspended in the \<open>wait\<close> of line 190 for the exchange at address \<open>a\<close>:
  the exchange is registered under its id and under no other key, and its event is
  not set.
\<close>

definition waiting :: "int \<Rightarrow> Postman \<times> heap \<Rightarrow> bool" where
  "waiting a s =
     (in_waiting (fst s) a = Some a
      \<and> (\<forall>k. in_waiting (fst s) k = Some a \<longrightarrow> k = a)
      \<and> (\<exists>r. snd s a = Some r \<and> \<not> event r))"

section \<open>Example inputs\<close>

definition example_command :: Command where
  "example_command = Command_javascript ''1+1''"

definition example_reply :: "int \<Rightarrow> EventLoopMessage" where
  "example_reply i = \<lparr>msg_topic = JStr ''result'', msg_payload = JInt 2, msg_id = JInt i\<rparr>"

definition example_others :: "action list" where
  "example_others = [Poll 0, Reply (example_reply 8), Send 9 (Command_update_interval 50)]"

definition example_run :: "action list" where
  "example_run =
     [Send 1 (Command_update_interval 50), Poll 2, Poll 3, Enter 4 example_command,
      Send 5 (Command_javascript ''2+2''), Poll 6]"

definition example_system :: "string system" where
  "example_system =
     \<lparr>page = Page_init ''index.html'' [] ''on_load'', objects = Map.empty, invoked = []\<rparr>"

definition example_render :: "string \<Rightarrow> (string \<times> string) list \<Rightarrow> string" where
  "example_render tmpl kwargs = tmpl"

definition example_get :: request where
  "example_get = \<lparr>req_method = ''GET'', json_body = JNull\<rparr>"

definition example_post :: "string \<Rightarrow> json \<Rightarrow> int \<Rightarrow> request" where
  "example_post t p i =
     \<lparr>req_method = ''POST'', json_body = JObj [(''topic'', JStr t), (''payload'', p), (''id'', JInt i)]\<rparr>"

definition example_thread :: thread where
  "example_thread = \<lparr>at = L312, alloc = 5, body = json_body (example_post ''command_loop'' JNull 0)\<rparr>"

definition example_posts :: "((nat \<Rightarrow> int) \<times> request) list" where
  "example_posts =
     [(int, example_post ''command_loop'' JNull 0), (int, example_post ''result'' (JInt 2) 99)]"

definition example_click :: request where
  "example_click = example_post ''onclick'' (JObj [(''id'', JStr ''btn1'')]) 0"

definition example_clickable :: "string system" where
  "example_clickable =
     example_system\<lparr>page := on_button_click ''btn1'' ''f'' (page example_system)\<rparr>"

text \<open>The click of scenario B as the specification writes it, without the field \<open>id\<close>.\<close>

definition example_click_without_id :: request where
  "example_click_without_id =
     \<lparr>req_method = ''POST'',
      json_body = JObj [(''topic'', JStr ''onclick''), (''payload'', JObj [(''id'', JStr ''btn1'')])]\<rparr>"

text \<open>
  A caller of \<open>send_and_receive\<close> between lines 188 and 189, and the same caller after a
  poll and the reply to its packet have been handled in that window and line 189 has run.
\<close>

definition example_window :: "Postman \<times> heap" where
  "example_window =
     send_and_receive_L188 7 (Postman_init, send_and_receive_L187 7 example_command Map.empty)"

definition example_lost :: "Postman \<times> heap" where
  "example_lost =
     send_and_receive_L189 7 (act (Reply (example_reply 7)) (act (Poll 0) example_window))"

text \<open>A page whose update interval has been set to 50.\<close>

definition example_reloaded :: "string system" where
  "example_reloaded =
     example_system\<lparr>page := update_interval_setter 9 50 (page example_system)\<rparr>"

section \<open>The no-op payload\<close>

lemma to_json_nothing:
  "to_json (nothing addr) =
     JObj [(''topic'', JStr ''nothing''), (''id'', JInt addr),
           (''should_respond'', JBool False), (''payload'', JNull)]"
  by (simp add: to_json_def nothing_def EventLoopResponse_init_def)

text \<open>
  C6: with an empty outbound queue, \<open>get_new_packet\<close> returns at once the no-op packet
  (topic \<open>nothing\<close>, \<open>should_respond\<close> false, payload \<open>None\<close>) and leaves the Postman
  as it was.
\<close>

theorem get_new_packet_empty:
  assumes "outgoing_packet_queue p = []"
  shows "get_new_packet addr p = (to_json (nothing addr), p)
       \<and> subscript (fst (get_new_packet addr p)) ''topic'' = Inr (JStr ''nothing'')
       \<and> subscript (fst (get_new_packet addr p)) ''should_respond'' = Inr (JBool False)
       \<and> subscript (fst (get_new_packet addr p)) ''payload'' = Inr JNull"
  using assms by (simp add: get_new_packet_def Queue_get_nowait_def to_json_nothing)

theorem get_new_packet_empty_witness:
  "outgoing_packet_queue Postman_init = []
   \<and> get_new_packet 7 Postman_init = (to_json (nothing 7), Postman_init)
   \<and> subscript (fst (get_new_packet 7 Postman_init)) ''topic'' = Inr (JStr ''nothing'')
   \<and> subscript (fst (get_new_packet 7 Postman_init)) ''should_respond'' = Inr (JBool False)
   \<and> subscript (fst (get_new_packet 7 Postman_init)) ''payload'' = Inr JNull"
proof -
  have e: "outgoing_packet_queue Postman_init = []"
    by (simp add: Postman_init_def)
  show ?thesis
    using e get_new_packet_empty [OF e, of 7] by blast
qed

text \<open>
  C7: whatever the outbound queue held, \<open>get_new_packet\<close> right after
  \<open>invalidate_outgoing_packets\<close> returns the no-op packet.
\<close>

theorem get_new_packet_after_invalidate:
  "fst (get_new_packet addr (invalidate_outgoing_packets p)) = to_json (nothing addr)"
  by (simp add: get_new_packet_def invalidate_outgoing_packets_def Queue_get_nowait_def)

section \<open>Blocking calls and their replies\<close>

lemma enter_queue:
  "outgoing_packet_queue (fst (send_and_receive_enter a c (p, h)))
     = outgoing_packet_queue p @ [to_json (EventLoopResponse_init a c True)]"
  by (simp add: send_and_receive_enter_def send_and_receive_L187_def send_and_receive_L188_def
      send_and_receive_L189_def Queue_put_def)

lemma enter_in_waiting:
  "in_waiting (fst (send_and_receive_enter a c (p, h))) = (in_waiting p)(a \<mapsto> a)"
  by (simp add: send_and_receive_enter_def send_and_receive_L187_def send_and_receive_L188_def
      send_and_receive_L189_def EventLoopResponse_init_def)

lemma enter_heap:
  "snd (send_and_receive_enter a c (p, h)) = h(a \<mapsto> EventLoopResponse_init a c True)"
  by (simp add: send_and_receive_enter_def send_and_receive_L187_def send_and_receive_L188_def
      send_and_receive_L189_def)

lemma enter_waiting:
  assumes "h a = None" and "ran (in_waiting p) \<subseteq> dom h"
  shows "waiting a (send_and_receive_enter a c (p, h))"
proof -
  have "\<forall>k. in_waiting p k \<noteq> Some a"
    using assms by (auto simp: ran_def dom_def)
  then show ?thesis
    by (simp add: waiting_def enter_in_waiting enter_heap EventLoopResponse_init_def)
qed

lemma act_waiting:
  assumes "waiting a s" and "\<not> touches a x"
  shows "waiting a (act x s)"
proof (cases s)
  case (Pair p h)
  show ?thesis
  proof (cases x)
    case (Send b c)
    with Pair assms show ?thesis by (simp add: waiting_def send_def)
  next
    case (Enter b c)
    with Pair assms show ?thesis
      by (auto simp: waiting_def enter_in_waiting enter_heap)
  next
    case (Poll b)
    with Pair assms show ?thesis
      by (auto simp: waiting_def get_new_packet_def Queue_get_nowait_def split: list.splits)
  next
    case (Reply m)
    with Pair assms show ?thesis
      by (auto simp: waiting_def process_message_def split: sum.splits option.splits)
  next
    case Invalidate
    with Pair assms show ?thesis by (simp add: waiting_def invalidate_outgoing_packets_def)
  qed
qed

lemma fold_act_waiting:
  "waiting a s \<Longrightarrow> \<forall>x\<in>set xs. \<not> touches a x \<Longrightarrow> waiting a (fold act xs s)"
  by (induction xs arbitrary: s) (simp_all add: act_waiting)

lemma waiting_blocked: "waiting a s \<Longrightarrow> send_and_receive_resume a (snd s) = None"
  by (auto simp: waiting_def send_and_receive_resume_def)

lemma waiting_reply:
  assumes "waiting a s" and "int_key (msg_id m) = Inr (Some a)"
  shows "send_and_receive_resume a (snd (act (Reply m) s)) = Some (msg_payload m)"
proof (cases s)
  case (Pair p h)
  with assms show ?thesis
    by (auto simp: waiting_def process_message_def send_and_receive_resume_def)
qed

text \<open>
  Once lines 187 to 189 have run, the exchange at the fresh address \<open>a\<close> is correlated
  by its id: the packet enqueued carries the id \<open>a\<close>; whatever other threads do
  meanwhile, replies with other ids included, the caller stays blocked; and the reply
  with id \<open>a\<close> makes the call return that reply's payload.
\<close>

lemma suspended_caller_returns_matching_reply:
  assumes "h a = None" and "ran (in_waiting p) \<subseteq> dom h"
    and "\<forall>x\<in>set others. \<not> touches a x"
    and "int_key (msg_id m) = Inr (Some a)"
  shows "subscript (last (outgoing_packet_queue (fst (send_and_receive_enter a c (p, h))))) ''id''
           = Inr (JInt a)
       \<and> send_and_receive_resume a (snd (fold act others (send_and_receive_enter a c (p, h)))) = None
       \<and> send_and_receive_resume a
           (snd (act (Reply m) (fold act others (send_and_receive_enter a c (p, h)))))
           = Some (msg_payload m)"
proof -
  have w: "waiting a (fold act others (send_and_receive_enter a c (p, h)))"
    using assms(1-3) by (simp add: enter_waiting fold_act_waiting)
  have "subscript (last (outgoing_packet_queue (fst (send_and_receive_enter a c (p, h))))) ''id''
          = Inr (JInt a)"
    by (simp add: enter_queue to_json_def EventLoopResponse_init_def)
  with w assms(4) show ?thesis
    by (simp add: waiting_blocked waiting_reply)
qed

lemma suspended_caller_returns_matching_reply_example:
  "Map.empty (7::int) = (None :: EventLoopResponse option)
   \<and> ran (in_waiting Postman_init) \<subseteq> dom (Map.empty :: heap)
   \<and> list_all (\<lambda>x. \<not> touches 7 x) example_others
   \<and> int_key (msg_id (example_reply 7)) = Inr (Some 7)
   \<and> send_and_receive_resume 7
        (snd (fold act example_others
               (send_and_receive_enter 7 example_command (Postman_init, Map.empty)))) = None
   \<and> send_and_receive_resume 7
        (snd (act (Reply (example_reply 7))
               (fold act example_others
                 (send_and_receive_enter 7 example_command (Postman_init, Map.empty)))))
        = Some (JInt 2)"
proof -
  have a: "Map.empty (7::int) = (None :: EventLoopResponse option)" by simp
  have b: "ran (in_waiting Postman_init) \<subseteq> dom (Map.empty :: heap)"
    by (simp add: Postman_init_def)
  have c: "\<forall>x\<in>set example_others. \<not> touches 7 x"
    by (simp add: example_others_def example_reply_def)
  have d: "int_key (msg_id (example_reply 7)) = Inr (Some 7)"
    by (simp add: example_reply_def)
  have e: "msg_payload (example_reply 7) = JInt 2"
    by (simp add: example_reply_def)
  have c': "list_all (\<lambda>x. \<not> touches 7 x) example_others"
    using c by (simp add: list_all_iff)
  show ?thesis
    using a b c' d e
      suspended_caller_returns_matching_reply [OF a b c d, of example_command]
    by simp
qed

subsection \<open>A reply that arrives before the registration\<close>

lemma example_window_eq:
  "example_window =
     (\<lparr>outgoing_packet_queue = [to_json (EventLoopResponse_init 7 example_command True)],
       in_waiting = Map.empty\<rparr>,
      [7 \<mapsto> EventLoopResponse_init 7 example_command True])"
  by (simp add: example_window_def Postman_init_def send_and_receive_L187_def
      send_and_receive_L188_def Queue_put_def)

lemma example_lost_eq:
  "example_lost =
     (\<lparr>outgoing_packet_queue = [], in_waiting = [7 \<mapsto> 7]\<rparr>,
      [7 \<mapsto> EventLoopResponse_init 7 example_command True])"
  by (simp add: example_lost_def example_window_eq example_reply_def get_new_packet_def
      Queue_get_nowait_def process_message_def send_and_receive_L189_def
      EventLoopResponse_init_def)

text \<open>
  C1: the call does not return the payload of every reply that carries its id. Lines 188
  and 189 are not one step: a poll takes the packet with id 7 after line 188, the reply
  with id 7 is handled before line 189 and raises \<open>KeyError\<close>, and the caller, once
  registered, is blocked with an empty queue and no reply to come.
\<close>

theorem matching_reply_lost_in_window:
  "fst (get_new_packet 0 (fst example_window))
     = to_json (EventLoopResponse_init 7 example_command True)
   \<and> int_key (msg_id (example_reply 7)) = Inr (Some 7)
   \<and> process_message (example_reply 7)
       (fst (act (Poll 0) example_window)) (snd (act (Poll 0) example_window))
     = Inl KeyError
   \<and> send_and_receive_resume 7 (snd example_lost) = None
   \<and> outgoing_packet_queue (fst example_lost) = []
   \<and> in_waiting (fst example_lost) 7 = Some 7"
  by (simp add: example_lost_eq example_window_eq example_reply_def get_new_packet_def
      Queue_get_nowait_def process_message_def send_and_receive_resume_def
      EventLoopResponse_init_def)

text \<open>From there no action of another thread that is not a second reply resolves the call.\<close>

lemma example_lost_waiting: "waiting 7 example_lost"
  by (simp add: waiting_def example_lost_eq EventLoopResponse_init_def)

lemma lost_reply_blocks_for_good:
  "\<forall>x\<in>set xs. \<not> touches 7 x \<Longrightarrow>
   send_and_receive_resume 7 (snd (fold act xs example_lost)) = None"
  by (simp add: example_lost_waiting fold_act_waiting waiting_blocked)

section \<open>The pending map\<close>

lemma act_keeps_entry:
  "in_waiting (fst s) a = Some a \<Longrightarrow> in_waiting (fst (act x s)) a = Some a"
proof (cases s)
  case (Pair p h)
  assume "in_waiting (fst s) a = Some a"
  with Pair show ?thesis
    by (cases x)
       (auto simp: send_def enter_in_waiting get_new_packet_def Queue_get_nowait_def
          invalidate_outgoing_packets_def split: list.splits sum.splits)
qed

lemma fold_act_keeps_entry:
  "in_waiting (fst s) a = Some a \<Longrightarrow> in_waiting (fst (fold act xs s)) a = Some a"
  by (induction xs arbitrary: s) (simp_all add: act_keeps_entry)

text \<open>
  C8, as the code has it: \<open>send_and_receive\<close> adds the entry for its id and changes no
  other entry, and nothing that runs afterwards removes it: the entry is still in the
  pending map when the caller unblocks, and stays there.
\<close>

theorem pending_entry_kept:
  "in_waiting (fst (send_and_receive_enter a c (p, h))) = (in_waiting p)(a \<mapsto> a)
   \<and> in_waiting (fst (fold act others (send_and_receive_enter a c (p, h)))) a = Some a"
  by (simp add: enter_in_waiting fold_act_keeps_entry)

text \<open>
  The claim of C8 as stated fails: the call below has returned 2, and its id is still
  a key of the pending map.
\<close>

theorem pending_entry_removed_counterexample:
  "send_and_receive_resume 7
     (snd (fold act [Poll 0, Reply (example_reply 7)]
             (send_and_receive_enter 7 example_command (Postman_init, Map.empty))))
     = Some (JInt 2)
   \<and> in_waiting
       (fst (fold act [Poll 0, Reply (example_reply 7)]
               (send_and_receive_enter 7 example_command (Postman_init, Map.empty)))) 7
     = Some 7"
  by (simp add: example_reply_def example_command_def Command_javascript_def Postman_init_def
      send_and_receive_enter_def send_and_receive_L187_def send_and_receive_L188_def
      send_and_receive_L189_def send_and_receive_resume_def EventLoopResponse_init_def
      get_new_packet_def Queue_get_nowait_def Queue_put_def process_message_def)

text \<open>
  C5: the code enqueues (line 188) before it registers (line 189). Between the two
  lines the packet with id 7 can be taken by a poll while 7 is no key of the pending
  map, and the reply to it raises \<open>KeyError\<close>.
\<close>

theorem send_and_receive_enqueues_before_registering:
  "in_waiting (fst (send_and_receive_L188 7
                      (Postman_init, send_and_receive_L187 7 example_command Map.empty))) 7 = None
   \<and> fst (get_new_packet 0
            (fst (send_and_receive_L188 7
                    (Postman_init, send_and_receive_L187 7 example_command Map.empty))))
       = to_json (EventLoopResponse_init 7 example_command True)
   \<and> process_message (example_reply 7)
       (snd (get_new_packet 0
              (fst (send_and_receive_L188 7
                      (Postman_init, send_and_receive_L187 7 example_command Map.empty)))))
       (send_and_receive_L187 7 example_command Map.empty)
       = Inl KeyError"
  by (simp add: example_reply_def Postman_init_def
      send_and_receive_L187_def send_and_receive_L188_def
      get_new_packet_def Queue_get_nowait_def Queue_put_def process_message_def)

section \<open>The outbound queue is first in, first out\<close>

text \<open>
  C3: in every run of sends, \<open>send_and_receive\<close> calls, polls and replies without an
  invalidation, the packets the polls have taken, followed by the packets still queued,
  are the packets queued at the start followed by the serialized commands in the order
  of their calls: the order is kept, no packet is lost and none is delivered twice.
\<close>

theorem outbound_queue_fifo:
  "\<forall>x\<in>set xs. x \<noteq> Invalidate \<Longrightarrow>
   delivered xs s @ outgoing_packet_queue (fst (fold act xs s))
     = outgoing_packet_queue (fst s) @ concat (map enqueued xs)"
proof (induction xs arbitrary: s)
  case Nil
  then show ?case by simp
next
  case (Cons x xs)
  obtain p h where s: "s = (p, h)" by (cases s)
  from Cons.prems have rest: "\<forall>y\<in>set xs. y \<noteq> Invalidate" and x: "x \<noteq> Invalidate" by auto
  note IH = Cons.IH [OF rest]
  show ?case
  proof (cases x)
    case (Send b c)
    then show ?thesis using IH [of "act x s"] s by (simp add: send_def Queue_put_def)
  next
    case (Enter b c)
    then show ?thesis using IH [of "act x s"] s by (simp add: enter_queue)
  next
    case (Poll b)
    then show ?thesis using IH [of "act x s"] s
      by (cases "outgoing_packet_queue p") (simp_all add: get_new_packet_def Queue_get_nowait_def)
  next
    case (Reply m)
    then show ?thesis using IH [of "act x s"] s by (simp split: sum.splits)
  next
    case Invalidate
    with x show ?thesis by simp
  qed
qed


theorem outbound_queue_fifo_witness:
  "list_all (\<lambda>x. x \<noteq> Invalidate) example_run
   \<and> delivered example_run (Postman_init, Map.empty)
       = [to_json (EventLoopResponse_init 1 (Command_update_interval 50) False),
          to_json (EventLoopResponse_init 4 example_command True)]
   \<and> outgoing_packet_queue (fst (fold act example_run (Postman_init, Map.empty)))
       = [to_json (EventLoopResponse_init 5 (Command_javascript ''2+2'') False)]"
proof -
  have a: "\<forall>x\<in>set example_run. x \<noteq> Invalidate"
    by (simp add: example_run_def)
  have q: "outgoing_packet_queue (fst (fold act example_run (Postman_init, Map.empty)))
       = [to_json (EventLoopResponse_init 5 (Command_javascript ''2+2'') False)]"
    by (simp add: example_run_def Postman_init_def send_def Queue_put_def get_new_packet_def
        Queue_get_nowait_def enter_queue enter_in_waiting enter_heap
        send_and_receive_enter_def send_and_receive_L187_def send_and_receive_L188_def
      send_and_receive_L189_def)
  have "delivered example_run (Postman_init, Map.empty)
          @ outgoing_packet_queue (fst (fold act example_run (Postman_init, Map.empty)))
        = outgoing_packet_queue (fst (Postman_init, Map.empty :: heap))
          @ concat (map enqueued example_run)"
    using outbound_queue_fifo [OF a] by blast
  then have "delivered example_run (Postman_init, Map.empty)
       = [to_json (EventLoopResponse_init 1 (Command_update_interval 50) False),
          to_json (EventLoopResponse_init 4 example_command True)]"
    unfolding q by (simp add: example_run_def Postman_init_def)
  moreover have "list_all (\<lambda>x. x \<noteq> Invalidate) example_run"
    using a by (simp add: list_all_iff)
  ultimately show ?thesis using q by blast
qed

section \<open>GET: the reload\<close>

lemma send_buffer_packets_2:
  "send_buffer_packets ident 2 p =
     p\<lparr>outgoing_packet_queue :=
          outgoing_packet_queue p @ [to_json (nothing (ident 0)), to_json (nothing (ident 1))]\<rparr>"
proof -
  have "[0..<nat 2] = [0, 1]" by (simp add: upt_rec)
  then show ?thesis by (simp add: send_buffer_packets_def Queue_put_def)
qed

text \<open>
  C10: after a GET the outbound queue holds exactly two no-op packets followed by one
  \<open>update_interval\<close> packet whose payload is the page's update interval, which the
  request leaves as it was.
\<close>

theorem get_request_queue:
  assumes "req_method req \<noteq> ''POST''"
  shows "outgoing_packet_queue (priv_postman (page (snd (on_request render_template ident req s))))
           = [JObj [(''topic'', JStr ''nothing''), (''id'', JInt (ident 0)),
                    (''should_respond'', JBool False), (''payload'', JNull)],
              JObj [(''topic'', JStr ''nothing''), (''id'', JInt (ident 1)),
                    (''should_respond'', JBool False), (''payload'', JNull)],
              JObj [(''topic'', JStr ''update_interval''), (''id'', JInt (ident 2)),
                    (''should_respond'', JBool False),
                    (''payload'', JInt (priv_update_interval (page s)))]]
       \<and> priv_update_interval (page (snd (on_request render_template ident req s)))
           = priv_update_interval (page s)"
  using assms
  by (simp add: on_request_def Let_def send_buffer_packets_2 invalidate_outgoing_packets_def
      update_interval_setter_def send_def Queue_put_def nothing_def to_json_def
      EventLoopResponse_init_def Command_update_interval_def)

theorem get_request_queue_witness:
  "req_method example_get \<noteq> ''POST''
   \<and> outgoing_packet_queue (priv_postman (page example_reloaded))
       = [JObj [(''topic'', JStr ''update_interval''), (''id'', JInt 9),
                (''should_respond'', JBool False), (''payload'', JInt 50)]]
   \<and> outgoing_packet_queue
       (priv_postman (page (snd (on_request example_render int example_get example_reloaded))))
       = [JObj [(''topic'', JStr ''nothing''), (''id'', JInt 0),
                (''should_respond'', JBool False), (''payload'', JNull)],
          JObj [(''topic'', JStr ''nothing''), (''id'', JInt 1),
                (''should_respond'', JBool False), (''payload'', JNull)],
          JObj [(''topic'', JStr ''update_interval''), (''id'', JInt 2),
                (''should_respond'', JBool False), (''payload'', JInt 50)]]
   \<and> priv_update_interval
       (page (snd (on_request example_render int example_get example_reloaded))) = 50"
proof -
  have a: "req_method example_get \<noteq> ''POST''"
    by (simp add: example_get_def)
  have i: "priv_update_interval (page example_reloaded) = 50"
    by (simp add: example_reloaded_def update_interval_setter_def)
  have q: "outgoing_packet_queue (priv_postman (page example_reloaded))
       = [JObj [(''topic'', JStr ''update_interval''), (''id'', JInt 9),
                (''should_respond'', JBool False), (''payload'', JInt 50)]]"
    by (simp add: example_reloaded_def example_system_def Page_init_def Postman_init_def
        update_interval_setter_def send_def Queue_put_def to_json_def
        EventLoopResponse_init_def Command_update_interval_def)
  show ?thesis
    using a q get_request_queue [OF a, of example_render int example_reloaded]
    by (simp add: i)
qed

section \<open>The load flag and the on-load hook\<close>

lemma L316_keeps_flag:
  "priv_has_loaded_event (page (snd (on_request_L316 addr b s))) = priv_has_loaded_event (page s)
   \<and> on_load (page (snd (on_request_L316 addr b s))) = on_load (page s)
   \<and> filter is_OnLoad (invoked (snd (on_request_L316 addr b s))) = filter is_OnLoad (invoked s)"
  by (simp add: on_request_L316_def split: sum.splits option.splits prod.splits)

lemma post_flag:
  assumes "req_method req = ''POST''"
  shows "priv_has_loaded_event (page (snd (on_request render_template ident req s)))
       \<and> on_load (page (snd (on_request render_template ident req s))) = on_load (page s)
       \<and> filter is_OnLoad (invoked (snd (on_request render_template ident req s)))
           = filter is_OnLoad (invoked s)
             @ (if priv_has_loaded_event (page s) then [] else [OnLoad (on_load (page s))])"
  using assms by (simp add: on_request_def Let_def L316_keeps_flag)

lemma get_flag:
  assumes "req_method req \<noteq> ''POST''"
  shows "\<not> priv_has_loaded_event (page (snd (on_request render_template ident req s)))
       \<and> on_load (page (snd (on_request render_template ident req s))) = on_load (page s)
       \<and> invoked (snd (on_request render_template ident req s)) = invoked s"
  using assms by (simp add: on_request_def Let_def update_interval_setter_def)

lemma serve_posts_loaded:
  assumes "\<forall>x\<in>set posts. req_method (snd x) = ''POST''" and "priv_has_loaded_event (page s)"
  shows "priv_has_loaded_event (page (serve render_template posts s))
       \<and> filter is_OnLoad (invoked (serve render_template posts s)) = filter is_OnLoad (invoked s)"
  using assms
proof (induction posts arbitrary: s)
  case Nil
  then show ?case by (simp add: serve_def)
next
  case (Cons x posts)
  obtain ident req where x: "x = (ident, req)" by (cases x)
  with Cons.prems have m: "req_method req = ''POST''" by simp
  let ?s = "snd (on_request render_template ident req s)"
  have "priv_has_loaded_event (page ?s)"
    and "filter is_OnLoad (invoked ?s) = filter is_OnLoad (invoked s)"
    using post_flag [OF m, of render_template ident s] Cons.prems(2) by simp_all
  moreover have "serve render_template (x # posts) s = serve render_template posts ?s"
    by (simp add: serve_def x)
  ultimately show ?case
    using Cons.IH [of ?s] Cons.prems(1) by simp
qed

text \<open>
  C4, for requests handled one after the other: the load flag is false after a GET; the
  next POST sets it and calls the on-load hook once; and however many POSTs follow in
  the same cycle, the hook has been called exactly once.
\<close>

theorem load_flag_cycle:
  assumes "req_method g \<noteq> ''POST''"
    and "req_method (snd first_post) = ''POST''"
    and "\<forall>x\<in>set more_posts. req_method (snd x) = ''POST''"
  shows "\<not> priv_has_loaded_event (page (snd (on_request render_template ident g s)))
       \<and> priv_has_loaded_event
           (page (serve render_template [first_post] (snd (on_request render_template ident g s))))
       \<and> filter is_OnLoad
           (invoked (serve render_template [first_post] (snd (on_request render_template ident g s))))
           = filter is_OnLoad (invoked s) @ [OnLoad (on_load (page s))]
       \<and> priv_has_loaded_event
           (page (serve render_template (first_post # more_posts)
                    (snd (on_request render_template ident g s))))
       \<and> filter is_OnLoad
           (invoked (serve render_template (first_post # more_posts)
                       (snd (on_request render_template ident g s))))
           = filter is_OnLoad (invoked s) @ [OnLoad (on_load (page s))]"
proof -
  let ?s0 = "snd (on_request render_template ident g s)"
  obtain i1 r1 where f: "first_post = (i1, r1)" by (cases first_post)
  with assms(2) have m: "req_method r1 = ''POST''" by simp
  let ?s1 = "snd (on_request render_template i1 r1 ?s0)"
  note g = get_flag [OF assms(1), of render_template ident s]
  note p = post_flag [OF m, of render_template i1 ?s0]
  have one: "serve render_template [first_post] ?s0 = ?s1"
    by (simp add: serve_def f)
  have many: "serve render_template (first_post # more_posts) ?s0
                = serve render_template more_posts ?s1"
    by (simp add: serve_def f)
  have s1: "priv_has_loaded_event (page ?s1)"
    and c1: "filter is_OnLoad (invoked ?s1) = filter is_OnLoad (invoked s) @ [OnLoad (on_load (page s))]"
    using g p by simp_all
  note rest = serve_posts_loaded [OF assms(3) s1, of render_template]
  show ?thesis
    using g s1 c1 rest by (simp only: one many) simp
qed


theorem load_flag_cycle_witness:
  "req_method example_get \<noteq> ''POST''
   \<and> req_method (snd (int, example_post ''command_loop'' JNull 0)) = ''POST''
   \<and> list_all (\<lambda>x. req_method (snd x) = ''POST'') example_posts
   \<and> \<not> priv_has_loaded_event
         (page (snd (on_request example_render int example_get example_system)))
   \<and> filter is_OnLoad
       (invoked (serve example_render ((int, example_post ''command_loop'' JNull 0) # example_posts)
                   (snd (on_request example_render int example_get example_system))))
       = [OnLoad ''on_load'']"
proof -
  have a: "req_method example_get \<noteq> ''POST''"
    by (simp add: example_get_def)
  have b: "req_method (snd (int, example_post ''command_loop'' JNull 0)) = ''POST''"
    by (simp add: example_post_def)
  have c: "\<forall>x\<in>set example_posts. req_method (snd x) = ''POST''"
    by (simp add: example_posts_def example_post_def)
  have d: "invoked (example_system :: string system) = []"
    and e: "on_load (page (example_system :: string system)) = ''on_load''"
    by (simp_all add: example_system_def Page_init_def)
  have c': "list_all (\<lambda>x. req_method (snd x) = ''POST'') example_posts"
    using c by (simp add: list_all_iff)
  show ?thesis
    using a b c' load_flag_cycle [OF a b c, of example_render int example_system]
    by (simp add: d e)
qed

subsection \<open>Two POST handlers at once\<close>

lemma step_L312:
  "at t = L312 \<Longrightarrow>
   step t s = (t\<lparr>at := (if \<not> priv_has_loaded_event (page s) then L313 else L316)\<rparr>, s)"
  by (simp add: step_def)

lemma step_L313:
  "at t = L313 \<Longrightarrow>
   step t s = (t\<lparr>at := L314\<rparr>, s\<lparr>page := (page s)\<lparr>priv_has_loaded_event := True\<rparr>\<rparr>)"
  by (simp add: step_def)

lemma step_L314:
  "at t = L314 \<Longrightarrow>
   step t s = (t\<lparr>at := L316\<rparr>, s\<lparr>invoked := invoked s @ [OnLoad (on_load (page s))]\<rparr>)"
  by (simp add: step_def)

lemma step_L316:
  "at t = L316 \<Longrightarrow>
   step t s = (t\<lparr>at := Returned (fst (on_request_L316 (alloc t) (body t) s))\<rparr>,
               snd (on_request_L316 (alloc t) (body t) s))"
  by (simp add: step_def split_beta)

lemma step_Returned: "at t = Returned r \<Longrightarrow> step t s = (t, s)"
  by (simp add: step_def)

lemmas step_at = step_L312 step_L313 step_L314 step_L316 step_Returned

lemma single_thread_is_on_request:
  assumes "at t = L312"
  shows "run_threads [0, 0, 0, 0] ([t], s)
           = ([t\<lparr>at := Returned (fst (on_request render_template (\<lambda>k. alloc t)
                                          \<lparr>req_method = ''POST'', json_body = body t\<rparr> s))\<rparr>],
              snd (on_request render_template (\<lambda>k. alloc t)
                     \<lparr>req_method = ''POST'', json_body = body t\<rparr> s))"
  using assms
  by (cases "priv_has_loaded_event (page s)")
     (simp_all add: step_at on_request_def Let_def)

text \<open>
  The claim of C4 as stated fails for POSTs handled at once: after a GET, two handlers
  that both pass the test of line 312 before either reaches line 313 both call the hook.
\<close>

theorem on_load_twice_counterexample:
  "filter is_OnLoad
     (invoked (snd (run_threads [0, 1, 0, 0, 1, 1, 0, 1]
                      ([example_thread, example_thread],
                       snd (on_request example_render int example_get example_system)))))
     = [OnLoad ''on_load'', OnLoad ''on_load'']"
  by (simp add: example_thread_def example_system_def example_get_def example_post_def
      Page_init_def Postman_init_def on_request_def Let_def step_at on_request_L316_def
      EventLoopMessage_init_def get_new_packet_def Queue_get_nowait_def send_buffer_packets_2
      invalidate_outgoing_packets_def update_interval_setter_def send_def Queue_put_def)


section \<open>Clicks\<close>

text \<open>
  C9, for a POST whose body has the fields \<open>topic\<close>, \<open>payload\<close> and \<open>id\<close>, with topic
  \<open>onclick\<close> and a payload that holds the element id: a registered callback is called
  exactly once, an element without callback is a silent no-op, and in both cases the
  response is the no-op packet; the Postman and the response objects are not touched.
\<close>

theorem onclick_callback:
  assumes "req_method req = ''POST''"
    and "EventLoopMessage_init (json_body req) = Inr m"
    and "msg_topic m = JStr ''onclick''"
    and "subscript (msg_payload m) ''id'' = Inr (JStr tag_id)"
  shows "fst (on_request render_template ident req s) = Inr (Packet (to_json (nothing (ident 0))))
       \<and> invoked (snd (on_request render_template ident req s))
           = invoked s
             @ (if priv_has_loaded_event (page s) then [] else [OnLoad (on_load (page s))])
             @ (case priv_callbacks (page s) tag_id of
                  None \<Rightarrow> []
                | Some callback \<Rightarrow> [Callback tag_id callback])
       \<and> priv_postman (page (snd (on_request render_template ident req s))) = priv_postman (page s)
       \<and> objects (snd (on_request render_template ident req s)) = objects s"
  using assms
  by (simp add: on_request_def Let_def on_request_L316_def split: option.splits)

theorem onclick_callback_witness:
  "req_method example_click = ''POST''
   \<and> EventLoopMessage_init (json_body example_click)
       = Inr \<lparr>msg_topic = JStr ''onclick'', msg_payload = JObj [(''id'', JStr ''btn1'')],
              msg_id = JInt 0\<rparr>
   \<and> fst (on_request example_render int example_click example_clickable)
       = Inr (Packet (to_json (nothing 0)))
   \<and> invoked (snd (on_request example_render int example_click example_clickable))
       = [OnLoad ''on_load'', Callback ''btn1'' ''f'']
   \<and> fst (on_request example_render int example_click example_system)
       = Inr (Packet (to_json (nothing 0)))
   \<and> invoked (snd (on_request example_render int example_click example_system))
       = [OnLoad ''on_load'']"
proof -
  let ?m = "\<lparr>msg_topic = JStr ''onclick'', msg_payload = JObj [(''id'', JStr ''btn1'')],
             msg_id = JInt 0\<rparr>"
  have a: "req_method example_click = ''POST''"
    by (simp add: example_click_def example_post_def)
  have b: "EventLoopMessage_init (json_body example_click) = Inr ?m"
    by (simp add: example_click_def example_post_def EventLoopMessage_init_def)
  have c: "msg_topic ?m = JStr ''onclick''" by simp
  have d: "subscript (msg_payload ?m) ''id'' = Inr (JStr ''btn1'')" by simp
  have e: "invoked (example_clickable :: string system) = []"
    "\<not> priv_has_loaded_event (page (example_clickable :: string system))"
    "on_load (page (example_clickable :: string system)) = ''on_load''"
    "priv_callbacks (page (example_clickable :: string system)) ''btn1'' = Some ''f''"
    by (simp_all add: example_clickable_def example_system_def Page_init_def on_button_click_def)
  have f: "invoked (example_system :: string system) = []"
    "\<not> priv_has_loaded_event (page (example_system :: string system))"
    "on_load (page (example_system :: string system)) = ''on_load''"
    "priv_callbacks (page (example_system :: string system)) ''btn1'' = None"
    by (simp_all add: example_system_def Page_init_def)
  show ?thesis
    using a b
      onclick_callback [OF a b c d, of example_render int example_clickable]
      onclick_callback [OF a b c d, of example_render int example_system]
    by (simp add: e f)
qed

text \<open>
  The claim of C9 as stated fails for a body without the field \<open>id\<close>: building the
  \<open>EventLoopMessage\<close> raises \<open>KeyError\<close>, and the registered callback is not called.
\<close>

theorem onclick_without_id_counterexample:
  "fst (on_request example_render int example_click_without_id example_clickable) = Inl KeyError
   \<and> invoked (snd (on_request example_render int example_click_without_id example_clickable))
       = [OnLoad ''on_load'']"
  by (simp add: example_click_without_id_def example_clickable_def example_system_def
      Page_init_def on_button_click_def on_request_def Let_def on_request_L316_def
      EventLoopMessage_init_def)

section \<open>A reply with an unknown id\<close>

text \<open>
  C2: a reply whose id is no key of the pending map makes \<open>process_message\<close>, and with
  it the request handler, raise \<open>KeyError\<close>.
\<close>

theorem unknown_reply_raises:
  "fst (on_request example_render int (example_post ''result'' (JInt 2) 99) example_system)
     = Inl KeyError"
  by (simp add: example_post_def example_system_def Page_init_def Postman_init_def
      on_request_def Let_def on_request_L316_def EventLoopMessage_init_def process_message_def)

end
